theory Spec2Isabelle
  imports Main
begin

text \<open>
  A shallow embedding of the cache item model (\<^verbatim>\<open>models.CacheItem\<close>), of the facade
  \<^verbatim>\<open>RedisCache\<close> over its backing store and of the two store handlers of
  \<^verbatim>\<open>CacheHandler\<close>, with the properties of the item lifecycle and of the facade
  contract proved about them.
\<close>

section \<open>Time and durations\<close>

text \<open>
  Go's \<^verbatim>\<open>time.Time\<close> is an instant and \<^verbatim>\<open>time.Duration\<close> a signed 64-bit count of
  nanoseconds. Instants are integers, the nanoseconds since the Unix epoch;
  durations are integers too. \<^verbatim>\<open>Time.Add\<close> is exact at every instant a clock returns.
  \<^verbatim>\<open>Time.Sub\<close> is the one operation used here whose result is clipped to the 64-bit
  range of a Duration, and the clipping is written out. Every reading of
  \<^verbatim>\<open>time.Now()\<close> is an argument of the function that makes it.
\<close>

type_synonym time = int
type_synonym duration = int

definition Millisecond :: duration where
  "Millisecond = 1000000"

definition Second :: duration where
  "Second = 1000000000"

definition Hour :: duration where
  "Hour = 3600000000000"

definition maxDuration :: duration where
  "maxDuration = 2 ^ 63 - 1"

definition minDuration :: duration where
  "minDuration = - (2 ^ 63)"

text \<open>\<^verbatim>\<open>t.Add(d)\<close>: the instant \<open>d\<close> after \<open>t\<close>.\<close>

definition time_Add :: "time \<Rightarrow> duration \<Rightarrow> time" where
  "time_Add t d = t + d"

text \<open>\<^verbatim>\<open>t.After(u)\<close>: \<open>t\<close> is strictly later than \<open>u\<close>.\<close>

definition time_After :: "time \<Rightarrow> time \<Rightarrow> bool" where
  "time_After t u = (u < t)"

text \<open>
  \<^verbatim>\<open>t.Sub(u)\<close>: the duration \<open>t - u\<close>; when it does not fit a Duration the library
  returns the largest (or the smallest) Duration instead.
\<close>

definition time_Sub :: "time \<Rightarrow> time \<Rightarrow> duration" where
  "time_Sub t u =
     (let d = t - u
      in if maxDuration < d then maxDuration
         else if d < minDuration then minDuration
         else d)"

text \<open>\<^verbatim>\<open>time.Until(t)\<close> is \<^verbatim>\<open>t.Sub(time.Now())\<close>; the clock reading is the argument \<open>now\<close>.\<close>

definition time_Until :: "time \<Rightarrow> time \<Rightarrow> duration" where
  "time_Until t now = time_Sub t now"

text \<open>
  Go's integer division of a duration by a positive unit truncates towards zero.
\<close>

definition go_quot :: "int \<Rightarrow> int \<Rightarrow> int" where
  "go_quot a b = (if a < 0 then - ((- a) div b) else a div b)"

section \<open>The item model (package models)\<close>

text \<open>
  The \<^verbatim>\<open>Value interface{}\<close> field holds any Go value. Those modelled are nil, a
  boolean, an integer of one of Go's integer types (\<open>JInt\<close>), a \<^verbatim>\<open>float64\<close> whose
  value is a whole number (\<open>JFloat\<close>; fractions are left out), a string (any bytes),
  a slice and a map with string keys (one pair for each key). \<open>GoChan\<close> stands for a
  value \<^verbatim>\<open>json.Marshal\<close> rejects (a channel, a function, a NaN), which may also sit
  inside a slice or a map.
\<close>

datatype jvalue =
    JNull
  | JBool bool
  | JInt int
  | JFloat int
  | JString string
  | JArray "jvalue list"
  | JObject "(string \<times> jvalue) list"
  | GoChan

record CacheItem =
  Key :: string
  Value :: jvalue
  TTL :: duration
  CreatedAt :: time
  ExpiresAt :: time

text \<open>\<^verbatim>\<open>NewCacheItem\<close>; its one reading of \<^verbatim>\<open>time.Now()\<close> is the argument \<open>now\<close>.\<close>

definition NewCacheItem :: "string \<Rightarrow> jvalue \<Rightarrow> duration \<Rightarrow> time \<Rightarrow> CacheItem" where
  "NewCacheItem key val ttl now =
     \<lparr>Key = key, Value = val, TTL = ttl, CreatedAt = now, ExpiresAt = time_Add now ttl\<rparr>"

text \<open>\<^verbatim>\<open>IsExpired\<close>: \<^verbatim>\<open>time.Now().After(ci.ExpiresAt)\<close>.\<close>

definition IsExpired :: "CacheItem \<Rightarrow> time \<Rightarrow> bool" where
  "IsExpired ci now = time_After now (ExpiresAt ci)"

text \<open>
  \<^verbatim>\<open>RemainingTTL\<close>. The source reads the clock twice: \<open>now1\<close> is the reading inside
  \<^verbatim>\<open>IsExpired\<close>, \<open>now2\<close> the later one inside \<^verbatim>\<open>time.Until\<close>.
\<close>

definition RemainingTTL :: "CacheItem \<Rightarrow> time \<Rightarrow> time \<Rightarrow> duration" where
  "RemainingTTL ci now1 now2 =
     (if IsExpired ci now1 then 0 else time_Until (ExpiresAt ci) now2)"

section \<open>Errors and serialisation\<close>

text \<open>
  Every failure of the source is a Go \<^verbatim>\<open>error\<close> value. \<open>RedisNil\<close> is the client's
  \<^verbatim>\<open>redis.Nil\<close> (the key is not there), \<open>ClientErr\<close> any other error the client
  reports (refused connection, timeout, ...), \<open>JsonErr\<close> an error of \<^verbatim>\<open>encoding/json\<close>.
  \<open>Errorf_w msg e\<close> is \<^verbatim>\<open>fmt.Errorf(msg + ": %w", e)\<close>, which wraps \<open>e\<close>, and
  \<open>Errorf msg\<close> is \<^verbatim>\<open>fmt.Errorf\<close> without a wrapped error.
\<close>

datatype error =
    RedisNil
  | ClientErr string
  | JsonErr string
  | Errorf_w string error
  | Errorf string

text \<open>
  What \<^verbatim>\<open>encoding/json\<close> does to a string. The encoder writes every byte that is not
  part of a well-formed UTF-8 sequence as the replacement character U+FFFD, and the
  decoder reads that back as the three bytes EF BF BD; a well-formed sequence comes
  back as it was. \<open>rune_len s\<close> is the number of bytes of the well-formed sequence at
  the head of \<open>s\<close> (after \<^verbatim>\<open>utf8.DecodeRuneInString\<close>), 0 when there is none.
\<close>

definition continuation :: "char \<Rightarrow> bool" where
  "continuation c = (128 \<le> (of_char c :: nat) \<and> (of_char c :: nat) \<le> 191)"

definition second_ok :: "nat \<Rightarrow> char \<Rightarrow> bool" where
  "second_ok lead c =
     ((if lead = 224 then 160 else if lead = 240 then 144 else 128) \<le> (of_char c :: nat) \<and>
      (of_char c :: nat) \<le> (if lead = 237 then 159 else if lead = 244 then 143 else 191))"

definition rune_len :: "string \<Rightarrow> nat" where
  "rune_len s =
     (case s of
        [] \<Rightarrow> 0
      | b0 # r \<Rightarrow>
          (let lead = (of_char b0 :: nat)
           in if lead < 128 then 1
              else if 194 \<le> lead \<and> lead \<le> 223 then
                (case r of b1 # r1 \<Rightarrow> if continuation b1 then 2 else 0 | [] \<Rightarrow> 0)
              else if 224 \<le> lead \<and> lead \<le> 239 then
                (case r of
                   b1 # b2 # r2 \<Rightarrow> if second_ok lead b1 \<and> continuation b2 then 3 else 0
                 | _ \<Rightarrow> 0)
              else if 240 \<le> lead \<and> lead \<le> 244 then
                (case r of
                   b1 # b2 # b3 # r3 \<Rightarrow>
                     if second_ok lead b1 \<and> continuation b2 \<and> continuation b3 then 4 else 0
                 | _ \<Rightarrow> 0)
              else 0))"

definition replacement :: string where
  "replacement = [CHR 0xEF, CHR 0xBF, CHR 0xBD]"

text \<open>
  \<open>coerce_from k s\<close> copies the \<open>k\<close> bytes still owed to the sequence being read and
  then goes on sequence by sequence, replacing each byte outside one.
\<close>

fun coerce_from :: "nat \<Rightarrow> string \<Rightarrow> string" where
  "coerce_from k [] = []"
| "coerce_from (Suc k) (b # bs) = b # coerce_from k bs"
| "coerce_from 0 (b # bs) =
     (case rune_len (b # bs) of
        0 \<Rightarrow> replacement @ coerce_from 0 bs
      | Suc n \<Rightarrow> b # coerce_from n bs)"

definition to_valid_utf8 :: "string \<Rightarrow> string" where
  "to_valid_utf8 s = coerce_from 0 s"

fun valid_from :: "nat \<Rightarrow> string \<Rightarrow> bool" where
  "valid_from k [] = True"
| "valid_from (Suc k) (b # bs) = valid_from k bs"
| "valid_from 0 (b # bs) =
     (case rune_len (b # bs) of
        0 \<Rightarrow> False
      | Suc n \<Rightarrow> valid_from n bs)"

text \<open>\<^verbatim>\<open>utf8.ValidString\<close>.\<close>

definition utf8_valid :: "string \<Rightarrow> bool" where
  "utf8_valid s = valid_from 0 s"

text \<open>
  What \<^verbatim>\<open>encoding/json\<close> does to a number. Every number is written in decimal, and
  the decoder, reading into an \<^verbatim>\<open>interface{}\<close>, returns the \<^verbatim>\<open>float64\<close> nearest to
  it (ties to the even significand). \<open>excess_bits a\<close> counts the bits \<open>a\<close> has beyond
  the 53 of a significand.
\<close>

function excess_bits :: "nat \<Rightarrow> nat" where
  "excess_bits a = (if a < 2 ^ 53 then 0 else Suc (excess_bits (a div 2)))"
  by pat_completeness auto
termination
  by (relation "measure id") auto

declare excess_bits.simps [simp del]

definition float64_of_int :: "int \<Rightarrow> int" where
  "float64_of_int n =
     (let a = nat \<bar>n\<bar>;
          e = excess_bits a;
          q = a div 2 ^ e;
          r = a mod 2 ^ e;
          q' = (if 2 ^ e < 2 * r \<or> (2 * r = 2 ^ e \<and> odd q) then q + 1 else q)
      in sgn n * int (q' * 2 ^ e))"

text \<open>
  \<open>encodable v\<close>: \<^verbatim>\<open>json.Marshal\<close> accepts the value. \<open>decoded v\<close>: the value
  \<^verbatim>\<open>json.Unmarshal\<close> returns for the text \<^verbatim>\<open>json.Marshal\<close> writes for \<open>v\<close>: numbers
  come back as \<^verbatim>\<open>float64\<close>, strings and map keys with their ill-formed bytes
  replaced. \<open>decode_shaped v\<close>: \<open>v\<close> is a value the decoder can return (nil, a boolean,
  a \<^verbatim>\<open>float64\<close>, a well-formed string, a slice or a map of such values).
\<close>

fun encodable :: "jvalue \<Rightarrow> bool" where
  "encodable GoChan = False"
| "encodable (JArray xs) = list_all encodable xs"
| "encodable (JObject kvs) = list_all encodable (map snd kvs)"
| "encodable v = True"

fun decoded :: "jvalue \<Rightarrow> jvalue" where
  "decoded (JInt n) = JFloat (float64_of_int n)"
| "decoded (JFloat n) = JFloat (float64_of_int n)"
| "decoded (JString s) = JString (to_valid_utf8 s)"
| "decoded (JArray xs) = JArray (map decoded xs)"
| "decoded (JObject kvs) = JObject (map (\<lambda>(k, v). (to_valid_utf8 k, decoded v)) kvs)"
| "decoded v = v"

fun decode_shaped :: "jvalue \<Rightarrow> bool" where
  "decode_shaped JNull = True"
| "decode_shaped (JBool b) = True"
| "decode_shaped (JInt n) = False"
| "decode_shaped (JFloat n) = (float64_of_int n = n)"
| "decode_shaped (JString s) = utf8_valid s"
| "decode_shaped (JArray xs) = list_all decode_shaped xs"
| "decode_shaped (JObject kvs) =
     (list_all utf8_valid (map fst kvs) \<and> list_all decode_shaped (map snd kvs))"
| "decode_shaped GoChan = False"

text \<open>
  A \<^verbatim>\<open>time.Time\<close> is written in RFC 3339 with nanoseconds and read back as the same
  instant; \<^verbatim>\<open>Time.MarshalJSON\<close> fails for a year outside 0..9999 (here in UTC).
\<close>

definition json_year_ok :: "time \<Rightarrow> bool" where
  "json_year_ok t = (- 62167219200 * Second \<le> t \<and> t < 253402300800 * Second)"

text \<open>
  The bytes kept in the backing store, told apart by what \<^verbatim>\<open>json.Unmarshal\<close> makes
  of them: \<open>Doc ci\<close> is a byte string that decodes to the item \<open>ci\<close>, \<open>Junk s\<close> a byte
  string \<open>s\<close> that does not decode.
\<close>

datatype blob = Doc CacheItem | Junk string

text \<open>
  \<open>marshals ci\<close>: \<^verbatim>\<open>json.Marshal\<close> accepts the item. \<open>as_decoded ci\<close>: the item its
  text decodes to. The TTL, a 64-bit integer, and the two instants come back as
  they were.
\<close>

definition marshals :: "CacheItem \<Rightarrow> bool" where
  "marshals ci =
     (encodable (Value ci) \<and> json_year_ok (CreatedAt ci) \<and> json_year_ok (ExpiresAt ci))"

definition as_decoded :: "CacheItem \<Rightarrow> CacheItem" where
  "as_decoded ci = ci\<lparr>Key := to_valid_utf8 (Key ci), Value := decoded (Value ci)\<rparr>"

definition json_Marshal :: "CacheItem \<Rightarrow> error + blob" where
  "json_Marshal ci =
     (if \<not> encodable (Value ci) then Inl (JsonErr ''json: unsupported type'')
      else if \<not> (json_year_ok (CreatedAt ci) \<and> json_year_ok (ExpiresAt ci))
      then Inl (JsonErr ''Time.MarshalJSON: year outside of range'')
      else Inr (Doc (as_decoded ci)))"

fun json_Unmarshal :: "blob \<Rightarrow> error + CacheItem" where
  "json_Unmarshal (Doc ci) = Inr ci"
| "json_Unmarshal (Junk s) = Inl (JsonErr ''invalid character'')"

section \<open>The backing store\<close>

text \<open>
  The Redis server behind \<^verbatim>\<open>redis.UniversalClient\<close> is not part of the repository. It
  is the keyed store with per-key expiration that the facade assumes: every key holds
  bytes and, when it was written with a lifetime, the instant at which it disappears.
  A key whose instant has come is no longer visible to any command. The server reads
  the same clock as the facade and drops a key when the lifetime it was sent has run
  out; the client sends lifetimes in whole milliseconds or seconds.

  A round trip to the server either goes through (\<open>Up\<close>) or fails in the transport
  with a message (\<open>Down\<close>); each facade operation takes the outcome of each round trip
  it may make. \<open>log\<close> lists the commands the client has sent, in order, and \<open>tasks\<close>
  the keys for which a detached clean-up goroutine has been started.
\<close>

datatype link = Up | Down string

record entry =
  payload :: blob
  deadline :: "time option"

datatype cmd =
    GET string
  | SET string blob duration
  | DEL "string list"
  | MGET "string list"
  | EXPIRE string duration
  | EXEC "(string \<times> blob \<times> duration) list"

record world =
  kv :: "string \<rightharpoonup> entry"
  log :: "cmd list"
  tasks :: "string list"

definition empty_world :: world where
  "empty_world = \<lparr>kv = Map.empty, log = [], tasks = []\<rparr>"

definition issue :: "cmd \<Rightarrow> world \<Rightarrow> world" where
  "issue c st = st\<lparr>log := log st @ [c]\<rparr>"

definition live :: "time \<Rightarrow> entry \<Rightarrow> bool" where
  "live now e = (case deadline e of None \<Rightarrow> True | Some d \<Rightarrow> now < d)"

definition lookup :: "time \<Rightarrow> world \<Rightarrow> string \<Rightarrow> blob option" where
  "lookup now st key =
     (case kv st key of
        None \<Rightarrow> None
      | Some e \<Rightarrow> if live now e then Some (payload e) else None)"

text \<open>
  How the client puts a duration on the wire (\<^verbatim>\<open>usePrecise\<close>, \<^verbatim>\<open>formatMs\<close>,
  \<^verbatim>\<open>formatSec\<close>): in whole milliseconds or whole seconds, a positive duration below
  the unit becoming one unit and any other losing its fraction. \<open>set_lifetime\<close> is
  the lifetime, in nanoseconds, that \<^verbatim>\<open>Set\<close> sends for a positive duration: seconds
  (\<^verbatim>\<open>EX\<close>) when the duration is a whole number of them, milliseconds (\<^verbatim>\<open>PX\<close>)
  otherwise.
\<close>

definition usePrecise :: "duration \<Rightarrow> bool" where
  "usePrecise dur = (dur < Second \<or> dur mod Second \<noteq> 0)"

definition formatMs :: "duration \<Rightarrow> int" where
  "formatMs dur = (if 0 < dur \<and> dur < Millisecond then 1 else go_quot dur Millisecond)"

definition formatSec :: "duration \<Rightarrow> int" where
  "formatSec dur = (if 0 < dur \<and> dur < Second then 1 else go_quot dur Second)"

definition set_lifetime :: "duration \<Rightarrow> duration" where
  "set_lifetime ttl =
     (if usePrecise ttl then formatMs ttl * Millisecond else formatSec ttl * Second)"

text \<open>
  The client's \<^verbatim>\<open>KeepTTL\<close>. A write with a positive lifetime sets the deadline, one
  with \<open>KeepTTL\<close> keeps the deadline the key has, and any other lifetime (zero
  included) stores the key with no deadline.
\<close>

definition KeepTTL :: duration where
  "KeepTTL = - 1"

definition write_deadline :: "time \<Rightarrow> duration \<Rightarrow> world \<Rightarrow> string \<Rightarrow> time option" where
  "write_deadline now ttl st key =
     (if 0 < ttl then Some (now + set_lifetime ttl)
      else if ttl = KeepTTL then
        (case kv st key of
           None \<Rightarrow> None
         | Some e \<Rightarrow> if live now e then deadline e else None)
      else None)"

definition store :: "time \<Rightarrow> string \<Rightarrow> blob \<Rightarrow> duration \<Rightarrow> world \<Rightarrow> world" where
  "store now key data ttl st =
     st\<lparr>kv := (kv st)(key \<mapsto> \<lparr>payload = data, deadline = write_deadline now ttl st key\<rparr>)\<rparr>"

definition client_Set ::
  "link \<Rightarrow> time \<Rightarrow> string \<Rightarrow> blob \<Rightarrow> duration \<Rightarrow> world \<Rightarrow> (error + unit) \<times> world" where
  "client_Set l now key data ttl st =
     (let st' = issue (SET key data ttl) st
      in case l of
           Down m \<Rightarrow> (Inl (ClientErr m), st')
         | Up \<Rightarrow> (Inr (), store now key data ttl st'))"

definition client_Get :: "link \<Rightarrow> time \<Rightarrow> string \<Rightarrow> world \<Rightarrow> (error + blob) \<times> world" where
  "client_Get l now key st =
     (let st' = issue (GET key) st
      in case l of
           Down m \<Rightarrow> (Inl (ClientErr m), st')
         | Up \<Rightarrow>
             (case lookup now st key of
                None \<Rightarrow> (Inl RedisNil, st')
              | Some data \<Rightarrow> (Inr data, st')))"

definition client_Del :: "link \<Rightarrow> time \<Rightarrow> string list \<Rightarrow> world \<Rightarrow> (error + nat) \<times> world" where
  "client_Del l now keys st =
     (let st' = issue (DEL keys) st
      in case l of
           Down m \<Rightarrow> (Inl (ClientErr m), st')
         | Up \<Rightarrow>
             (Inr (length (filter (\<lambda>k. lookup now st k \<noteq> None) (remdups keys))),
              st'\<lparr>kv := (\<lambda>k. if k \<in> set keys then None else kv st k)\<rparr>))"

text \<open>A reply of \<^verbatim>\<open>MGet\<close> is a slice of \<^verbatim>\<open>interface{}\<close>: nil, a string, or something else.\<close>

datatype iface = INil | IString blob | IOther

definition client_MGet ::
  "link \<Rightarrow> time \<Rightarrow> string list \<Rightarrow> world \<Rightarrow> (error + iface list) \<times> world" where
  "client_MGet l now keys st =
     (let st' = issue (MGET keys) st
      in case l of
           Down m \<Rightarrow> (Inl (ClientErr m), st')
         | Up \<Rightarrow>
             (Inr (map (\<lambda>k. case lookup now st k of None \<Rightarrow> INil | Some data \<Rightarrow> IString data) keys),
              st'))"

text \<open>
  \<^verbatim>\<open>Expire\<close> sends the new lifetime in whole seconds. The server answers false when it
  does not hold the key; otherwise it answers true, and it removes the key at once
  when the seconds are not positive.
\<close>

definition client_Expire ::
  "link \<Rightarrow> time \<Rightarrow> string \<Rightarrow> duration \<Rightarrow> world \<Rightarrow> (error + bool) \<times> world" where
  "client_Expire l now key ttl st =
     (let st' = issue (EXPIRE key ttl) st
      in case l of
           Down m \<Rightarrow> (Inl (ClientErr m), st')
         | Up \<Rightarrow>
             (case lookup now st key of
                None \<Rightarrow> (Inr False, st')
              | Some data \<Rightarrow>
                  (Inr True,
                   st'\<lparr>kv := (kv st)(key :=
                           (if 0 < formatSec ttl
                            then Some \<lparr>payload = data,
                                       deadline = Some (now + formatSec ttl * Second)\<rparr>
                            else None))\<rparr>)))"

text \<open>
  A pipeline queues writes and sends them in one round trip; \<^verbatim>\<open>Exec\<close> on a pipeline
  with nothing queued returns at once, without a round trip.
\<close>

fun store_all :: "time \<Rightarrow> (string \<times> blob \<times> duration) list \<Rightarrow> world \<Rightarrow> world" where
  "store_all now [] st = st"
| "store_all now ((key, data, ttl) # rest) st = store_all now rest (store now key data ttl st)"

definition pipe_Exec ::
  "link \<Rightarrow> time \<Rightarrow> (string \<times> blob \<times> duration) list \<Rightarrow> world \<Rightarrow> (error + unit) \<times> world" where
  "pipe_Exec l now cmds st =
     (if cmds = [] then (Inr (), st)
      else
        (let st' = issue (EXEC cmds) st
         in case l of
              Down m \<Rightarrow> (Inl (ClientErr m), st')
            | Up \<Rightarrow> (Inr (), store_all now cmds st')))"

section \<open>The facade (RedisCache)\<close>

text \<open>
  Each method threads the \<open>world\<close> and returns Go's \<^verbatim>\<open>(result, error)\<close> as a sum:
  \<open>Inl\<close> the error, \<open>Inr\<close> the result. A call happens at the instant \<open>now\<close>. The
  logger calls have no effect on results and are left out.
\<close>

definition RedisCache_Set ::
  "link \<Rightarrow> time \<Rightarrow> string \<Rightarrow> jvalue \<Rightarrow> duration \<Rightarrow> world \<Rightarrow> (error + unit) \<times> world" where
  "RedisCache_Set l now key val ttl st =
     (let cacheItem = NewCacheItem key val ttl now
      in case json_Marshal cacheItem of
           Inl err \<Rightarrow> (Inl (Errorf_w ''failed to marshal cache item'' err), st)
         | Inr data \<Rightarrow>
             (case client_Set l now key data ttl st of
                (Inl err, st') \<Rightarrow> (Inl (Errorf_w ''failed to set cache item'' err), st')
              | (Inr u, st') \<Rightarrow> (Inr (), st')))"

definition RedisCache_Delete :: "link \<Rightarrow> time \<Rightarrow> string \<Rightarrow> world \<Rightarrow> (error + unit) \<times> world" where
  "RedisCache_Delete l now key st =
     (case client_Del l now [key] st of
        (Inl err, st') \<Rightarrow> (Inl (Errorf_w ''failed to delete cache item'' err), st')
      | (Inr n, st') \<Rightarrow> (Inr (), st'))"

text \<open>
  \<^verbatim>\<open>Get\<close> makes one round trip for the read (\<open>l\<close>) and, when the item it read is
  expired, a second one for the clean-up delete (\<open>l_del\<close>), whose error it drops.
  \<open>Inr None\<close> is the source's \<^verbatim>\<open>(nil, nil)\<close>.
\<close>

definition RedisCache_Get ::
  "link \<Rightarrow> link \<Rightarrow> time \<Rightarrow> string \<Rightarrow> world \<Rightarrow> (error + CacheItem option) \<times> world" where
  "RedisCache_Get l l_del now key st =
     (case client_Get l now key st of
        (Inl err, st1) \<Rightarrow>
          if err = RedisNil then (Inr None, st1)
          else (Inl (Errorf_w ''failed to get cache item'' err), st1)
      | (Inr data, st1) \<Rightarrow>
          (case json_Unmarshal data of
             Inl err \<Rightarrow> (Inl (Errorf_w ''failed to unmarshal cache item'' err), st1)
           | Inr cacheItem \<Rightarrow>
               if IsExpired cacheItem now
               then (Inr None, snd (RedisCache_Delete l_del now key st1))
               else (Inr (Some cacheItem), st1)))"

text \<open>
  \<^verbatim>\<open>SetMultiple\<close>. The Go map of items is an association list with one pair for each
  key, in the order the \<^verbatim>\<open>range\<close> loop happens to visit them; every entry points to
  an item, as those the handler builds do. \<open>queue_items\<close> is that
  loop: an item that does not marshal is passed over, every other one is queued.
\<close>

fun queue_items :: "(string \<times> CacheItem) list \<Rightarrow> (string \<times> blob \<times> duration) list" where
  "queue_items [] = []"
| "queue_items ((key, item) # rest) =
     (case json_Marshal item of
        Inl err \<Rightarrow> queue_items rest
      | Inr data \<Rightarrow> (key, data, TTL item) # queue_items rest)"

definition RedisCache_SetMultiple ::
  "link \<Rightarrow> time \<Rightarrow> (string \<times> CacheItem) list \<Rightarrow> world \<Rightarrow> (error + unit) \<times> world" where
  "RedisCache_SetMultiple l now items st =
     (case pipe_Exec l now (queue_items items) st of
        (Inl err, st') \<Rightarrow> (Inl (Errorf_w ''failed to set multiple cache items'' err), st')
      | (Inr u, st') \<Rightarrow> (Inr (), st'))"

text \<open>
  \<^verbatim>\<open>GetMultiple\<close>. \<open>collect\<close> is the loop over the replies, each paired with its key
  \<^verbatim>\<open>keys[i]\<close>; it carries the result map and the keys of the clean-up goroutines it
  starts. The goroutines are detached: the call returns without running them.
\<close>

fun collect ::
  "time \<Rightarrow> (string \<times> iface) list \<Rightarrow> (string \<rightharpoonup> CacheItem) \<times> string list \<Rightarrow>
   (string \<rightharpoonup> CacheItem) \<times> string list" where
  "collect now [] acc = acc"
| "collect now ((key, INil) # rest) acc = collect now rest acc"
| "collect now ((key, IOther) # rest) acc = collect now rest acc"
| "collect now ((key, IString data) # rest) (items, spawned) =
     (case json_Unmarshal data of
        Inl err \<Rightarrow> collect now rest (items, spawned)
      | Inr cacheItem \<Rightarrow>
          if \<not> IsExpired cacheItem now
          then collect now rest (items(key \<mapsto> cacheItem), spawned)
          else collect now rest (items, spawned @ [key]))"

definition RedisCache_GetMultiple ::
  "link \<Rightarrow> time \<Rightarrow> string list \<Rightarrow> world \<Rightarrow> (error + (string \<rightharpoonup> CacheItem)) \<times> world" where
  "RedisCache_GetMultiple l now keys st =
     (if length keys = 0 then (Inr Map.empty, st)
      else
        (case client_MGet l now keys st of
           (Inl err, st') \<Rightarrow> (Inl (Errorf_w ''failed to get multiple cache items'' err), st')
         | (Inr results, st') \<Rightarrow>
             (case collect now (zip keys results) (Map.empty, []) of
                (items, spawned) \<Rightarrow> (Inr items, st'\<lparr>tasks := tasks st' @ spawned\<rparr>))))"

definition RedisCache_Expire ::
  "link \<Rightarrow> time \<Rightarrow> string \<Rightarrow> duration \<Rightarrow> world \<Rightarrow> (error + unit) \<times> world" where
  "RedisCache_Expire l now key ttl st =
     (case client_Expire l now key ttl st of
        (Inl err, st') \<Rightarrow> (Inl (Errorf_w ''failed to set expiration'' err), st')
      | (Inr success, st') \<Rightarrow>
          if \<not> success then (Inl (Errorf (''key does not exist: '' @ key)), st')
          else (Inr (), st'))"

section \<open>The request handlers (CacheHandler)\<close>

text \<open>
  A handler answers with a status code and a message. The body of a store request
  carries a value and a \<^verbatim>\<open>ttl\<close> string, which is empty when the field is left out;
  a body that does not bind is \<open>None\<close>. \<^verbatim>\<open>time.ParseDuration\<close> is the parameter
  \<open>parse\<close>, \<open>None\<close> where it returns an error. A request is handled at one instant
  \<open>now\<close>.
\<close>

datatype response = Response nat string

record store_request =
  req_Value :: jvalue
  req_TTL :: string

text \<open>The lines shared by both handlers: one hour unless a \<^verbatim>\<open>ttl\<close> string is given.\<close>

definition request_ttl :: "(string \<Rightarrow> duration option) \<Rightarrow> string \<Rightarrow> duration option" where
  "request_ttl parse s = (if s \<noteq> [] then parse s else Some (1 * Hour))"

definition CacheHandler_SetItem ::
  "(string \<Rightarrow> duration option) \<Rightarrow> link \<Rightarrow> time \<Rightarrow> string \<Rightarrow> store_request option \<Rightarrow> world \<Rightarrow>
   response \<times> world" where
  "CacheHandler_SetItem parse l now key body st =
     (if key = [] then (Response 400 ''key is required'', st)
      else
        (case body of
           None \<Rightarrow> (Response 400 ''invalid request body'', st)
         | Some request \<Rightarrow>
             (case request_ttl parse (req_TTL request) of
                None \<Rightarrow> (Response 400 ''invalid TTL format'', st)
              | Some ttl \<Rightarrow>
                  (case RedisCache_Set l now key (req_Value request) ttl st of
                     (Inl err, st') \<Rightarrow> (Response 500 ''failed to set cache item'', st')
                   | (Inr u, st') \<Rightarrow> (Response 200 ''item stored successfully'', st')))))"

text \<open>
  The batch handler first builds one item for each entry of the request, stopping at
  the first \<^verbatim>\<open>ttl\<close> string that does not parse (\<open>Inl\<close> its key), and only then calls
  the facade.
\<close>

fun build_items ::
  "(string \<Rightarrow> duration option) \<Rightarrow> time \<Rightarrow> (string \<times> store_request) list \<Rightarrow>
   string + (string \<times> CacheItem) list" where
  "build_items parse now [] = Inr []"
| "build_items parse now ((key, item) # rest) =
     (case request_ttl parse (req_TTL item) of
        None \<Rightarrow> Inl key
      | Some ttl \<Rightarrow>
          (case build_items parse now rest of
             Inl k \<Rightarrow> Inl k
           | Inr items \<Rightarrow> Inr ((key, NewCacheItem key (req_Value item) ttl now) # items)))"

definition CacheHandler_SetMultiple ::
  "(string \<Rightarrow> duration option) \<Rightarrow> link \<Rightarrow> time \<Rightarrow> (string \<times> store_request) list option \<Rightarrow>
   world \<Rightarrow> response \<times> world" where
  "CacheHandler_SetMultiple parse l now body st =
     (case body of
        None \<Rightarrow> (Response 400 ''invalid request body'', st)
      | Some request_items \<Rightarrow>
          (case build_items parse now request_items of
             Inl key \<Rightarrow> (Response 400 (''invalid TTL format for key: '' @ key), st)
           | Inr items \<Rightarrow>
               (case RedisCache_SetMultiple l now items st of
                  (Inl err, st') \<Rightarrow> (Response 500 ''failed to set multiple items'', st')
                | (Inr u, st') \<Rightarrow> (Response 200 ''items stored successfully'', st'))))"

section \<open>Facts about the backing store and the facade\<close>

subsection \<open>Serialisation\<close>

lemma coerce_valid: "valid_from k s \<Longrightarrow> coerce_from k s = s"
  by (induction k s rule: coerce_from.induct) (auto split: nat.splits)

lemma to_valid_utf8_id: "utf8_valid s \<Longrightarrow> to_valid_utf8 s = s"
  by (simp add: utf8_valid_def to_valid_utf8_def coerce_valid)

lemma excess_bits_small: "a < 2 ^ 53 \<Longrightarrow> excess_bits a = 0"
  by (subst excess_bits.simps) simp

lemma excess_bits_step: "\<not> a < 2 ^ 53 \<Longrightarrow> excess_bits a = Suc (excess_bits (a div 2))"
  by (subst excess_bits.simps) simp

lemma float64_of_int_small: "\<bar>n\<bar> < 2 ^ 53 \<Longrightarrow> float64_of_int n = n"
proof -
  assume "\<bar>n\<bar> < 2 ^ 53"
  then have "nat \<bar>n\<bar> < 2 ^ 53" by simp
  then have "excess_bits (nat \<bar>n\<bar>) = 0" by (rule excess_bits_small)
  then show ?thesis by (simp add: float64_of_int_def Let_def abs_mult_sgn sgn_mult_abs)
qed

lemma decode_shaped_fix: "decode_shaped v \<Longrightarrow> decoded v = v \<and> encodable v"
proof (induction v)
  case (JArray xs)
  then have "\<forall>x \<in> set xs. decoded x = x \<and> encodable x"
    by (simp add: list_all_iff)
  then show ?case by (simp add: list_all_iff map_idI)
next
  case (JObject kvs)
  then have all: "\<forall>p \<in> set kvs. utf8_valid (fst p) \<and> decoded (snd p) = snd p \<and> encodable (snd p)"
    by (fastforce simp: list_all_iff)
  then have "map (\<lambda>(k, v). (to_valid_utf8 k, decoded v)) kvs = kvs"
    by (intro map_idI) (auto simp: to_valid_utf8_id)
  with all show ?case by (simp add: list_all_iff)
qed (simp_all add: to_valid_utf8_id)

lemma as_decoded_fields:
  "Key (as_decoded ci) = to_valid_utf8 (Key ci)"
  "Value (as_decoded ci) = decoded (Value ci)"
  "TTL (as_decoded ci) = TTL ci"
  "CreatedAt (as_decoded ci) = CreatedAt ci"
  "ExpiresAt (as_decoded ci) = ExpiresAt ci"
  by (simp_all add: as_decoded_def)

lemma as_decoded_id: "utf8_valid (Key ci) \<Longrightarrow> decode_shaped (Value ci) \<Longrightarrow> as_decoded ci = ci"
  by (simp add: as_decoded_def to_valid_utf8_id decode_shaped_fix)

lemma IsExpired_as_decoded: "IsExpired (as_decoded ci) now = IsExpired ci now"
  by (simp add: IsExpired_def as_decoded_fields)

lemma json_Marshal_ok: "marshals ci \<Longrightarrow> json_Marshal ci = Inr (Doc (as_decoded ci))"
  by (simp add: json_Marshal_def marshals_def)

lemma json_Marshal_iff: "(\<exists>data. json_Marshal ci = Inr data) = marshals ci"
  by (simp add: json_Marshal_def marshals_def)

lemma NewCacheItem_fields:
  "Key (NewCacheItem key val ttl now) = key"
  "Value (NewCacheItem key val ttl now) = val"
  "TTL (NewCacheItem key val ttl now) = ttl"
  "CreatedAt (NewCacheItem key val ttl now) = now"
  "ExpiresAt (NewCacheItem key val ttl now) = now + ttl"
  by (simp_all add: NewCacheItem_def time_Add_def)

subsection \<open>Single-key operations\<close>

lemma issue_fields:
  "kv (issue c st) = kv st"
  "log (issue c st) = log st @ [c]"
  "tasks (issue c st) = tasks st"
  by (simp_all add: issue_def)

lemma lookup_issue: "lookup now (issue c st) key = lookup now st key"
  by (simp add: lookup_def issue_def)

lemma lookup_store_same:
  "lookup now' (store now key data ttl st) key =
     (if live now' \<lparr>payload = data, deadline = write_deadline now ttl st key\<rparr>
      then Some data else None)"
  by (simp add: lookup_def store_def)

lemma Set_ok:
  "marshals (NewCacheItem key val ttl now) \<Longrightarrow>
   RedisCache_Set Up now key val ttl st =
     (Inr (), store now key (Doc (as_decoded (NewCacheItem key val ttl now))) ttl
                (issue (SET key (Doc (as_decoded (NewCacheItem key val ttl now))) ttl) st))"
  by (simp add: RedisCache_Set_def json_Marshal_ok client_Set_def Let_def)

lemma Get_miss:
  "lookup now st key = None \<Longrightarrow>
   RedisCache_Get Up l_del now key st = (Inr None, issue (GET key) st)"
  by (simp add: RedisCache_Get_def client_Get_def)

lemma Get_hit:
  "lookup now st key = Some (Doc item) \<Longrightarrow>
   RedisCache_Get Up l_del now key st =
     (if IsExpired item now
      then (Inr None, snd (RedisCache_Delete l_del now key (issue (GET key) st)))
      else (Inr (Some item), issue (GET key) st))"
  by (simp add: RedisCache_Get_def client_Get_def)

lemma Delete_log: "log (snd (RedisCache_Delete l now key st)) = log st @ [DEL [key]]"
  by (cases l) (simp_all add: RedisCache_Delete_def client_Del_def issue_def)


lemma Expire_miss:
  "lookup now st key = None \<Longrightarrow>
   RedisCache_Expire Up now key ttl st =
     (Inl (Errorf (''key does not exist: '' @ key)), issue (EXPIRE key ttl) st)"
  by (simp add: RedisCache_Expire_def client_Expire_def)

lemma Expire_down:
  "RedisCache_Expire (Down m) now key ttl st =
     (Inl (Errorf_w ''failed to set expiration'' (ClientErr m)), issue (EXPIRE key ttl) st)"
  by (simp add: RedisCache_Expire_def client_Expire_def)

subsection \<open>Batch read\<close>

lemma collect_map:
  "fst (collect now (zip keys (map (\<lambda>k. case lookup now st k of None \<Rightarrow> INil | Some data \<Rightarrow> IString data) keys))
         (items, spawned)) k =
     (case (if k \<in> set keys
            then (case lookup now st k of
                    None \<Rightarrow> None
                  | Some (Doc item) \<Rightarrow> if IsExpired item now then None else Some item
                  | Some (Junk s) \<Rightarrow> None)
            else None) of
        None \<Rightarrow> items k
      | Some item \<Rightarrow> Some item)"
proof (induction keys arbitrary: items spawned)
  case Nil
  show ?case by simp
next
  case (Cons a keys)
  let ?f = "\<lambda>k. case lookup now st k of None \<Rightarrow> INil | Some data \<Rightarrow> IString data"
  let ?rest = "zip keys (map ?f keys)"
  show ?case
  proof (cases "lookup now st a")
    case None
    then have "collect now (zip (a # keys) (map ?f (a # keys))) (items, spawned)
                 = collect now ?rest (items, spawned)"
      by simp
    then show ?thesis
      using None Cons.IH [of items spawned] by (cases "k = a") simp_all
  next
    case (Some data)
    show ?thesis
    proof (cases data)
      case (Junk s)
      with Some have "collect now (zip (a # keys) (map ?f (a # keys))) (items, spawned)
                        = collect now ?rest (items, spawned)"
        by simp
      then show ?thesis
        using Some Junk Cons.IH [of items spawned] by (cases "k = a") simp_all
    next
      case (Doc item)
      show ?thesis
      proof (cases "IsExpired item now")
        case True
        with Some Doc have "collect now (zip (a # keys) (map ?f (a # keys))) (items, spawned)
                              = collect now ?rest (items, spawned @ [a])"
          by simp
        then show ?thesis
          using Some Doc True Cons.IH [of items "spawned @ [a]"] by (cases "k = a") simp_all
      next
        case False
        with Some Doc have "collect now (zip (a # keys) (map ?f (a # keys))) (items, spawned)
                              = collect now ?rest (items(a \<mapsto> item), spawned)"
          by simp
        then show ?thesis
          using Some Doc False Cons.IH [of "items(a \<mapsto> item)" spawned]
          by (cases "k = a") (simp_all add: fun_upd_def split: option.splits blob.splits)
      qed
    qed
  qed
qed

lemma GetMultiple_result:
  "\<exists>m. fst (RedisCache_GetMultiple Up now keys st) = Inr m \<and>
       (\<forall>k. m k = (if k \<in> set keys
                    then (case lookup now st k of
                            None \<Rightarrow> None
                          | Some (Doc item) \<Rightarrow> if IsExpired item now then None else Some item
                          | Some (Junk s) \<Rightarrow> None)
                    else None))"
proof (cases "keys = []")
  case True
  then show ?thesis by (simp add: RedisCache_GetMultiple_def)
next
  case False
  let ?rs = "map (\<lambda>k. case lookup now st k of None \<Rightarrow> INil | Some data \<Rightarrow> IString data) keys"
  obtain items spawned where c: "collect now (zip keys ?rs) (Map.empty, []) = (items, spawned)"
    by (cases "collect now (zip keys ?rs) (Map.empty, [])") simp
  have r: "fst (RedisCache_GetMultiple Up now keys st) = Inr items"
    using False c by (simp add: RedisCache_GetMultiple_def client_MGet_def)
  have "items k = (if k \<in> set keys
                    then (case lookup now st k of
                            None \<Rightarrow> None
                          | Some (Doc item) \<Rightarrow> if IsExpired item now then None else Some item
                          | Some (Junk s) \<Rightarrow> None)
                    else None)" for k
    using collect_map [of now keys st Map.empty "[]" k] c
    by (simp split: option.splits blob.splits if_splits)
  with r show ?thesis by blast
qed

subsection \<open>Batch write\<close>

lemma write_deadline_cong:
  "kv st key = kv st' key \<Longrightarrow> write_deadline now ttl st key = write_deadline now ttl st' key"
  by (simp add: write_deadline_def)

lemma kv_store_all:
  "distinct (map fst cmds) \<Longrightarrow>
   kv (store_all now cmds st) k =
     (case map_of cmds k of
        None \<Rightarrow> kv st k
      | Some (data, ttl) \<Rightarrow> Some \<lparr>payload = data, deadline = write_deadline now ttl st k\<rparr>)"
proof (induction cmds arbitrary: st)
  case Nil
  show ?case by simp
next
  case (Cons c cmds)
  obtain key data ttl where c: "c = (key, data, ttl)" by (cases c) auto
  from Cons.prems c have d: "distinct (map fst cmds)" and fresh: "key \<notin> fst ` set cmds"
    by simp_all
  from fresh have none: "map_of cmds key = None" by (simp add: map_of_eq_None_iff)
  show ?case
  proof (cases "k = key")
    case True
    then show ?thesis
      using Cons.IH [OF d, of "store now key data ttl st"] c none
      by (simp add: store_def)
  next
    case False
    then have "kv (store now key data ttl st) k = kv st k" by (simp add: store_def)
    then show ?thesis
      using Cons.IH [OF d, of "store now key data ttl st"] c False
        write_deadline_cong [of "store now key data ttl st" k st now]
      by (simp split: option.splits)
  qed
qed

lemma queue_items_eq:
  "queue_items items =
     map (\<lambda>p. (fst p, Doc (as_decoded (snd p)), TTL (snd p))) (filter (\<lambda>p. marshals (snd p)) items)"
  by (induction items rule: queue_items.induct) (simp_all add: json_Marshal_def marshals_def)

lemma queue_items_fst: "map fst (queue_items items) = map fst (filter (\<lambda>p. marshals (snd p)) items)"
  by (simp add: queue_items_eq comp_def)

lemma queue_items_distinct:
  "distinct (map fst items) \<Longrightarrow> distinct (map fst (queue_items items))"
  by (simp add: queue_items_fst distinct_map_filter)

lemma queue_items_empty:
  "(queue_items items = []) = (\<forall>p \<in> set items. \<not> marshals (snd p))"
  by (simp add: queue_items_eq filter_empty_conv)

lemma map_of_queue_items:
  "distinct (map fst items) \<Longrightarrow>
   map_of (queue_items items) k =
     (case map_of items k of
        None \<Rightarrow> None
      | Some item \<Rightarrow> if marshals item then Some (Doc (as_decoded item), TTL item) else None)"
proof (induction items)
  case Nil
  show ?case by simp
next
  case (Cons p rest)
  obtain key item where p: "p = (key, item)" by (cases p)
  from Cons.prems p have d: "distinct (map fst rest)" and fresh: "key \<notin> fst ` set rest"
    by simp_all
  from fresh have none: "map_of rest key = None" by (simp add: map_of_eq_None_iff)
  show ?case
  proof (cases "k = key")
    case True
    then show ?thesis using Cons.IH [OF d] none by (simp add: p json_Marshal_def marshals_def)
  next
    case False
    then show ?thesis using Cons.IH [OF d] by (simp add: p json_Marshal_def marshals_def)
  qed
qed

lemma SetMultiple_up:
  "RedisCache_SetMultiple Up now items st =
     (Inr (), if queue_items items = [] then st
              else store_all now (queue_items items) (issue (EXEC (queue_items items)) st))"
  by (simp add: RedisCache_SetMultiple_def pipe_Exec_def)

lemma kv_SetMultiple_up:
  assumes "distinct (map fst items)"
  shows "kv (snd (RedisCache_SetMultiple Up now items st)) k =
     (case map_of items k of
        None \<Rightarrow> kv st k
      | Some item \<Rightarrow>
          if marshals item
          then Some \<lparr>payload = Doc (as_decoded item),
                     deadline = write_deadline now (TTL item) st k\<rparr>
          else kv st k)"
proof (cases "queue_items items = []")
  case True
  then have "\<forall>p \<in> set items. \<not> marshals (snd p)" by (simp add: queue_items_empty)
  then have "map_of items k = Some item \<Longrightarrow> \<not> marshals item" for item
    by (force dest: map_of_SomeD)
  with True show ?thesis by (simp add: SetMultiple_up split: option.splits)
next
  case False
  let ?st' = "issue (EXEC (queue_items items)) st"
  have wd: "write_deadline now ttl ?st' k = write_deadline now ttl st k" for ttl
    by (rule write_deadline_cong) (simp add: issue_fields)
  show ?thesis
    using False kv_store_all [OF queue_items_distinct [OF assms], of now ?st' k]
    by (simp add: SetMultiple_up map_of_queue_items [OF assms] wd issue_fields split: option.splits)
qed

subsection \<open>Handlers\<close>

lemma request_ttl_default: "request_ttl parse [] = Some Hour"
  by (simp add: request_ttl_def)

lemma build_items_ok:
  "\<forall>p \<in> set ris. request_ttl parse (req_TTL (snd p)) \<noteq> None \<Longrightarrow>
   build_items parse now ris =
     Inr (map (\<lambda>p. (fst p, NewCacheItem (fst p) (req_Value (snd p))
                              (the (request_ttl parse (req_TTL (snd p)))) now)) ris)"
  by (induction ris) auto

lemma SetItem_default:
  "req_TTL request = [] \<Longrightarrow> key \<noteq> [] \<Longrightarrow>
   CacheHandler_SetItem parse l now key (Some request) st =
     (case RedisCache_Set l now key (req_Value request) Hour st of
        (Inl err, st') \<Rightarrow> (Response 500 ''failed to set cache item'', st')
      | (Inr u, st') \<Rightarrow> (Response 200 ''item stored successfully'', st'))"
  by (simp add: CacheHandler_SetItem_def request_ttl_def)

subsection \<open>Remaining lifetime and write-then-read\<close>

lemma RemainingTTL_expiry_between_readings:
  "\<not> IsExpired ci now1 \<Longrightarrow> IsExpired ci now2 \<Longrightarrow> RemainingTTL ci now1 now2 < 0"
  by (simp add: RemainingTTL_def IsExpired_def time_After_def time_Until_def time_Sub_def
      maxDuration_def minDuration_def Let_def)

lemma set_lifetime_Hour: "set_lifetime Hour = Hour"
  by (simp add: set_lifetime_def usePrecise_def formatSec_def go_quot_def Second_def Hour_def)

lemma Set_then_Get:
  assumes "marshals (NewCacheItem key val ttl now)" and "0 < ttl"
    and "now' < now + set_lifetime ttl" and "\<not> IsExpired (NewCacheItem key val ttl now) now'"
  shows "fst (RedisCache_Get Up l_del now' key (snd (RedisCache_Set Up now key val ttl st)))
           = Inr (Some (as_decoded (NewCacheItem key val ttl now)))"
proof -
  let ?item = "NewCacheItem key val ttl now"
  have "lookup now' (snd (RedisCache_Set Up now key val ttl st)) key = Some (Doc (as_decoded ?item))"
    using assms(2,3) by (simp add: Set_ok [OF assms(1)] lookup_store_same live_def write_deadline_def)
  from Get_hit [OF this] assms(4) show ?thesis by (simp add: IsExpired_as_decoded)
qed

section \<open>The claims\<close>

text \<open>
  C1, as stated: for every key and value, \<open>Get\<close> right after \<open>Set\<close> returns an item
  with the identical key and value. It does not for a key that is not well-formed
  UTF-8, nor for an integer value: written and read at the same instant, the key
  byte FF comes back as the replacement character (bytes EF BF BD), and the integer
  9007199254740993 as the float64 9007199254740992.
\<close>

theorem round_trip_changes_key_and_number_counterexample:
  "fst (RedisCache_Get Up Up 0 [CHR 0xFF]
         (snd (RedisCache_Set Up 0 [CHR 0xFF] (JString ''v'') Hour empty_world)))
     = Inr (Some \<lparr>Key = [CHR 0xEF, CHR 0xBF, CHR 0xBD], Value = JString ''v'', TTL = Hour,
                  CreatedAt = 0, ExpiresAt = Hour\<rparr>) \<and>
   [CHR 0xEF, CHR 0xBF, CHR 0xBD] \<noteq> [CHR 0xFF] \<and>
   fst (RedisCache_Get Up Up 0 ''k''
         (snd (RedisCache_Set Up 0 ''k'' (JInt 9007199254740993) Hour empty_world)))
     = Inr (Some \<lparr>Key = ''k'', Value = JFloat 9007199254740992, TTL = Hour,
                  CreatedAt = 0, ExpiresAt = Hour\<rparr>) \<and>
   JFloat 9007199254740992 \<noteq> JInt 9007199254740993"
proof -
  have years: "json_year_ok 0" "json_year_ok Hour"
    by (simp_all add: json_year_ok_def Second_def Hour_def)
  have window: "(0::int) < Hour" "(0::int) < 0 + set_lifetime Hour"
    by (simp_all add: set_lifetime_Hour) (simp_all add: Hour_def)
  have fresh: "\<not> IsExpired (NewCacheItem key val Hour 0) 0" for key val
    by (simp add: IsExpired_def time_After_def NewCacheItem_fields Hour_def)
  have m1: "marshals (NewCacheItem [CHR 0xFF] (JString ''v'') Hour 0)"
    using years by (simp add: marshals_def NewCacheItem_fields)
  have m2: "marshals (NewCacheItem ''k'' (JInt 9007199254740993) Hour 0)"
    using years by (simp add: marshals_def NewCacheItem_fields)
  have d1: "as_decoded (NewCacheItem [CHR 0xFF] (JString ''v'') Hour 0)
              = \<lparr>Key = [CHR 0xEF, CHR 0xBF, CHR 0xBD], Value = JString ''v'', TTL = Hour,
                 CreatedAt = 0, ExpiresAt = Hour\<rparr>"
    by (simp add: as_decoded_def NewCacheItem_def time_Add_def to_valid_utf8_def rune_len_def
        replacement_def)
  have e: "excess_bits 9007199254740993 = 1"
    by (simp add: excess_bits_step excess_bits_small)
  have "float64_of_int 9007199254740993 = 9007199254740992"
    by (simp add: float64_of_int_def e Let_def)
  then have d2: "as_decoded (NewCacheItem ''k'' (JInt 9007199254740993) Hour 0)
              = \<lparr>Key = ''k'', Value = JFloat 9007199254740992, TTL = Hour,
                 CreatedAt = 0, ExpiresAt = Hour\<rparr>"
    by (simp add: as_decoded_def NewCacheItem_def time_Add_def to_valid_utf8_def rune_len_def)
  show ?thesis
    using Set_then_Get [OF m1 window fresh, of Up empty_world]
      Set_then_Get [OF m2 window fresh, of Up empty_world]
    by (simp add: d1 d2)
qed

text \<open>
  C1, amended. For every key that is well-formed UTF-8, every value of a shape the
  JSON decoder returns (nil, a boolean, a float64, a well-formed string, a slice or
  a string-keyed map of such values) and every ttl > 0, with the instant of the
  write and the expiry in the years 0..9999: when both round trips go through, \<open>Set\<close>
  at the instant \<open>now\<close> succeeds, and \<open>Get\<close> of the same key at an instant \<open>now'\<close> right
  after it (not before \<open>now\<close>, before the lifetime sent to the backing store has run
  out and not after the item's expiresAt) returns an item with the identical key
  and value that is not expired.
\<close>

theorem set_then_get_round_trip:
  assumes "utf8_valid key" and "decode_shaped val" and "0 < ttl"
    and "json_year_ok now" and "json_year_ok (now + ttl)"
    and "now \<le> now'" and "now' < now + set_lifetime ttl" and "now' \<le> now + ttl"
  shows "fst (RedisCache_Set Up now key val ttl st) = Inr () \<and>
         (\<exists>item. fst (RedisCache_Get Up l_del now' key (snd (RedisCache_Set Up now key val ttl st)))
                   = Inr (Some item) \<and>
                 Key item = key \<and> Value item = val \<and> \<not> IsExpired item now')"
proof -
  let ?item = "NewCacheItem key val ttl now"
  have m: "marshals ?item"
    using assms(2,4,5) by (simp add: marshals_def NewCacheItem_fields decode_shaped_fix)
  have same: "as_decoded ?item = ?item"
    using assms(1,2) by (simp add: as_decoded_id NewCacheItem_fields)
  have fresh: "\<not> IsExpired ?item now'"
    using assms(8) by (simp add: IsExpired_def NewCacheItem_fields time_After_def)
  have "fst (RedisCache_Get Up l_del now' key (snd (RedisCache_Set Up now key val ttl st)))
          = Inr (Some ?item)"
    using Set_then_Get [OF m assms(3,7) fresh, of l_del st] by (simp add: same)
  moreover have "Key ?item = key" "Value ?item = val"
    by (simp_all add: NewCacheItem_fields)
  moreover have "fst (RedisCache_Set Up now key val ttl st) = Inr ()"
    by (simp add: Set_ok [OF m])
  ultimately show ?thesis using fresh by blast
qed

theorem set_then_get_round_trip_witness:
  "utf8_valid ''test_key'' \<and> decode_shaped (JString ''test_value'') \<and> (0::int) < Hour \<and>
   json_year_ok 1000 \<and> json_year_ok (1000 + Hour) \<and>
   (1000::int) \<le> 1001000 \<and> (1001000::int) < 1000 + set_lifetime Hour \<and>
   (1001000::int) \<le> 1000 + Hour \<and>
   fst (RedisCache_Set Up 1000 ''test_key'' (JString ''test_value'') Hour empty_world) = Inr () \<and>
   (\<exists>item. fst (RedisCache_Get Up Up 1001000 ''test_key''
                  (snd (RedisCache_Set Up 1000 ''test_key'' (JString ''test_value'') Hour empty_world)))
              = Inr (Some item) \<and>
            Key item = ''test_key'' \<and> Value item = JString ''test_value'' \<and>
            \<not> IsExpired item 1001000)"
proof -
  have h1: "utf8_valid ''test_key''" by (simp add: utf8_valid_def rune_len_def)
  have h2: "decode_shaped (JString ''test_value'')" by (simp add: utf8_valid_def rune_len_def)
  have h3: "(0::int) < Hour" by (simp add: Hour_def)
  have h4: "json_year_ok 1000" by (simp add: json_year_ok_def Second_def)
  have h5: "json_year_ok (1000 + Hour)" by (simp add: json_year_ok_def Second_def Hour_def)
  have h6: "(1000::int) \<le> 1001000" by simp
  have h7: "(1001000::int) < 1000 + set_lifetime Hour"
    by (simp add: set_lifetime_Hour) (simp add: Hour_def)
  have h8: "(1001000::int) \<le> 1000 + Hour" by (simp add: Hour_def)
  show ?thesis
    using h1 h2 h3 h4 h5 h6 h7 h8
      set_then_get_round_trip [OF h1 h2 h3 h4 h5 h6 h7 h8, of empty_world Up]
    by simp
qed

text \<open>
  C9, as stated: \<open>RemainingTTL\<close> is exactly max(0, expiresAt - now). It is not for an
  item that expires more than the largest Duration after \<open>now\<close>: 2^63 nanoseconds
  ahead (both clock readings at instant 0), the method returns 2^63 - 1.
\<close>

theorem RemainingTTL_not_exact_counterexample:
  "RemainingTTL
     \<lparr>Key = ''k'', Value = JNull, TTL = 0, CreatedAt = 0, ExpiresAt = 9223372036854775808\<rparr> 0 0
     = 9223372036854775807 \<and>
   max 0 (ExpiresAt
     \<lparr>Key = ''k'', Value = JNull, TTL = 0, CreatedAt = 0, ExpiresAt = 9223372036854775808\<rparr> - 0)
     = (9223372036854775808 :: int)"
  by (simp add: RemainingTTL_def IsExpired_def time_After_def time_Until_def time_Sub_def
      maxDuration_def minDuration_def Let_def)

text \<open>
  C9, amended. For every item, \<open>RemainingTTL\<close> is zero when the item is expired at the
  method's first reading of the clock. When the item is expired at neither of its
  two readings, it is expiresAt minus the current time (the second reading), capped
  at the largest Duration, and not negative. In particular, when both readings are
  the same instant \<open>now\<close>, it is max(0, expiresAt - now) capped at the largest
  Duration.
\<close>

theorem RemainingTTL_clipped:
  "(IsExpired ci now1 \<longrightarrow> RemainingTTL ci now1 now2 = 0) \<and>
   (\<not> IsExpired ci now1 \<and> \<not> IsExpired ci now2 \<longrightarrow>
      RemainingTTL ci now1 now2 = min maxDuration (ExpiresAt ci - now2) \<and>
      0 \<le> RemainingTTL ci now1 now2) \<and>
   RemainingTTL ci now now = max 0 (min maxDuration (ExpiresAt ci - now))"
proof -
  have bounds: "0 \<le> maxDuration" "minDuration \<le> 0"
    by (simp_all add: maxDuration_def minDuration_def)
  have sub: "time_Sub t u = min maxDuration (t - u)" if "u \<le> t" for t u
    using that bounds by (simp add: time_Sub_def Let_def min_def)
  have a: "RemainingTTL ci now1 now2 = 0" if "IsExpired ci now1"
    using that by (simp add: RemainingTTL_def)
  have b: "RemainingTTL ci n1 n2 = min maxDuration (ExpiresAt ci - n2) \<and>
           0 \<le> RemainingTTL ci n1 n2"
    if "\<not> IsExpired ci n1" and "\<not> IsExpired ci n2" for n1 n2
  proof -
    from that(2) have le: "n2 \<le> ExpiresAt ci"
      by (simp add: IsExpired_def time_After_def)
    from that(1) have "RemainingTTL ci n1 n2 = min maxDuration (ExpiresAt ci - n2)"
      by (simp add: RemainingTTL_def time_Until_def sub [OF le])
    with le bounds show ?thesis by (simp add: min_def)
  qed
  have c: "RemainingTTL ci now now = max 0 (min maxDuration (ExpiresAt ci - now))"
  proof (cases "IsExpired ci now")
    case True
    then have "ExpiresAt ci - now < 0" by (simp add: IsExpired_def time_After_def)
    with True bounds show ?thesis by (simp add: RemainingTTL_def max_def min_def)
  next
    case False
    note both = b [OF False False]
    note e = both [THEN conjunct1] and n = both [THEN conjunct2]
    from n have nn: "0 \<le> min maxDuration (ExpiresAt ci - now)" by (simp only: e)
    show ?thesis by (simp only: e max_absorb2 [OF nn])
  qed
  show ?thesis
  proof (intro conjI impI)
    assume "IsExpired ci now1"
    then show "RemainingTTL ci now1 now2 = 0" by (rule a)
  next
    assume h: "\<not> IsExpired ci now1 \<and> \<not> IsExpired ci now2"
    from b [OF h [THEN conjunct1] h [THEN conjunct2]]
    show "RemainingTTL ci now1 now2 = min maxDuration (ExpiresAt ci - now2)"
      by (rule conjunct1)
  next
    assume h: "\<not> IsExpired ci now1 \<and> \<not> IsExpired ci now2"
    from b [OF h [THEN conjunct1] h [THEN conjunct2]]
    show "0 \<le> RemainingTTL ci now1 now2"
      by (rule conjunct2)
  next
    show "RemainingTTL ci now now = max 0 (min maxDuration (ExpiresAt ci - now))" by (rule c)
  qed
qed

theorem RemainingTTL_clipped_witness:
  "IsExpired \<lparr>Key = ''k'', Value = JNull, TTL = 100, CreatedAt = 0, ExpiresAt = 100\<rparr> 200 \<and>
   RemainingTTL \<lparr>Key = ''k'', Value = JNull, TTL = 100, CreatedAt = 0, ExpiresAt = 100\<rparr> 200 201
     = 0 \<and>
   \<not> IsExpired \<lparr>Key = ''k'', Value = JNull, TTL = 100, CreatedAt = 0, ExpiresAt = 100\<rparr> 40 \<and>
   \<not> IsExpired \<lparr>Key = ''k'', Value = JNull, TTL = 100, CreatedAt = 0, ExpiresAt = 100\<rparr> 41 \<and>
   RemainingTTL \<lparr>Key = ''k'', Value = JNull, TTL = 100, CreatedAt = 0, ExpiresAt = 100\<rparr> 40 41
     = 59"
proof -
  let ?ci = "\<lparr>Key = ''k'', Value = JNull, TTL = 100, CreatedAt = 0, ExpiresAt = 100\<rparr>"
  have h1: "IsExpired ?ci 200" by (simp add: IsExpired_def time_After_def)
  have h2: "\<not> IsExpired ?ci 40" "\<not> IsExpired ?ci 41"
    by (simp_all add: IsExpired_def time_After_def)
  show ?thesis
    using h1 h2 RemainingTTL_clipped [of ?ci 200 201 0] RemainingTTL_clipped [of ?ci 40 41 0]
    by (simp add: maxDuration_def)
qed




text \<open>
  C3. For every key whose stored bytes deserialize to an item that is expired at the
  instant of the read, \<open>Get\<close> sends a delete of that key to the backing store right
  after the read, and returns no item and no error whether the delete goes through
  or not: with a delete that fails in the transport (where \<open>Delete\<close> itself returns an
  error) the result is the same, and with one that goes through the key is gone.
\<close>

theorem get_expired_deletes_and_reports_miss:
  assumes "lookup now st key = Some data" and "json_Unmarshal data = Inr item"
    and "IsExpired item now"
  shows "fst (RedisCache_Get Up l_del now key st) = Inr None \<and>
         log (snd (RedisCache_Get Up l_del now key st)) = log st @ [GET key, DEL [key]] \<and>
         fst (RedisCache_Get Up (Down m) now key st) = Inr None \<and>
         fst (RedisCache_Delete (Down m) now key (issue (GET key) st))
           = Inl (Errorf_w ''failed to delete cache item'' (ClientErr m)) \<and>
         kv (snd (RedisCache_Get Up Up now key st)) key = None"
proof -
  from assms(2) have "data = Doc item" by (cases data) simp_all
  with assms(1) have look: "lookup now st key = Some (Doc item)" by simp
  have get: "RedisCache_Get Up l now key st
               = (Inr None, snd (RedisCache_Delete l now key (issue (GET key) st)))" for l
    using Get_hit [OF look] assms(3) by simp
  have a: "fst (RedisCache_Get Up l_del now key st) = Inr None"
    and b: "fst (RedisCache_Get Up (Down m) now key st) = Inr None"
    by (simp_all add: get)
  have c: "log (snd (RedisCache_Get Up l_del now key st)) = log st @ [GET key, DEL [key]]"
    by (simp add: get Delete_log issue_fields)
  have d: "fst (RedisCache_Delete (Down m) now key (issue (GET key) st))
             = Inl (Errorf_w ''failed to delete cache item'' (ClientErr m))"
    by (simp add: RedisCache_Delete_def client_Del_def)
  have e: "kv (snd (RedisCache_Get Up Up now key st)) key = None"
    by (simp add: get RedisCache_Delete_def client_Del_def)
  from a b c d e show ?thesis by simp
qed

theorem get_expired_deletes_and_reports_miss_witness:
  "lookup 200 \<lparr>kv = [''expiring_key'' \<mapsto> \<lparr>payload = Doc (NewCacheItem ''expiring_key'' (JString ''expiring_value'') 100 0),
                                            deadline = None\<rparr>], log = [], tasks = []\<rparr> ''expiring_key''
     = Some (Doc (NewCacheItem ''expiring_key'' (JString ''expiring_value'') 100 0)) \<and>
   json_Unmarshal (Doc (NewCacheItem ''expiring_key'' (JString ''expiring_value'') 100 0))
     = Inr (NewCacheItem ''expiring_key'' (JString ''expiring_value'') 100 0) \<and>
   IsExpired (NewCacheItem ''expiring_key'' (JString ''expiring_value'') 100 0) 200 \<and>
   fst (RedisCache_Get Up (Down ''connection refused'') 200 ''expiring_key''
         \<lparr>kv = [''expiring_key'' \<mapsto> \<lparr>payload = Doc (NewCacheItem ''expiring_key'' (JString ''expiring_value'') 100 0),
                                      deadline = None\<rparr>], log = [], tasks = []\<rparr>) = Inr None \<and>
   log (snd (RedisCache_Get Up (Down ''connection refused'') 200 ''expiring_key''
         \<lparr>kv = [''expiring_key'' \<mapsto> \<lparr>payload = Doc (NewCacheItem ''expiring_key'' (JString ''expiring_value'') 100 0),
                                      deadline = None\<rparr>], log = [], tasks = []\<rparr>))
     = [GET ''expiring_key'', DEL [''expiring_key'']]"
proof -
  let ?item = "NewCacheItem ''expiring_key'' (JString ''expiring_value'') 100 0"
  let ?st = "\<lparr>kv = [''expiring_key'' \<mapsto> \<lparr>payload = Doc ?item, deadline = None\<rparr>], log = [], tasks = []\<rparr>"
  have h1: "lookup 200 ?st ''expiring_key'' = Some (Doc ?item)"
    by (simp add: lookup_def live_def)
  have h2: "json_Unmarshal (Doc ?item) = Inr ?item" by simp
  have h3: "IsExpired ?item 200"
    by (simp add: IsExpired_def NewCacheItem_def time_After_def time_Add_def)
  show ?thesis
    using h1 h2 h3
      get_expired_deletes_and_reports_miss [OF h1 h2 h3, of "Down ''connection refused''"]
    by simp
qed

text \<open>
  C5. \<open>GetMultiple\<close> of an empty key sequence returns the empty map and leaves the
  world, the log of commands included, as it was, whatever the state of the
  transport. For any keys, when the round trip goes through, the call returns a map
  and no error, and the map holds a key exactly when it was requested, is present in
  the backing store, deserializes and is not expired: an absent key, undecodable
  bytes and an expired item all leave no entry.
\<close>

theorem get_multiple_excludes_silently:
  "RedisCache_GetMultiple l now [] st = (Inr Map.empty, st) \<and>
   (\<exists>m. fst (RedisCache_GetMultiple Up now keys st) = Inr m \<and>
        (\<forall>k. m k = (if k \<in> set keys
                     then (case lookup now st k of
                             None \<Rightarrow> None
                           | Some (Doc item) \<Rightarrow> if IsExpired item now then None else Some item
                           | Some (Junk s) \<Rightarrow> None)
                     else None)))"
  using GetMultiple_result [of now keys st] by (simp add: RedisCache_GetMultiple_def)

theorem get_multiple_excludes_silently_witness:
  "\<exists>m. fst (RedisCache_GetMultiple Up 150 [''multi1'', ''stale'', ''broken'', ''non_existent'']
             \<lparr>kv = [''multi1'' \<mapsto> \<lparr>payload = Doc (NewCacheItem ''multi1'' (JString ''value1'') Hour 0),
                                     deadline = Some Hour\<rparr>,
                    ''stale'' \<mapsto> \<lparr>payload = Doc (NewCacheItem ''stale'' (JString ''value2'') 100 0),
                                    deadline = None\<rparr>,
                    ''broken'' \<mapsto> \<lparr>payload = Junk ''{'', deadline = None\<rparr>],
              log = [], tasks = []\<rparr>) = Inr m \<and>
       m ''multi1'' = Some (NewCacheItem ''multi1'' (JString ''value1'') Hour 0) \<and>
       m ''stale'' = None \<and> m ''broken'' = None \<and> m ''non_existent'' = None"
proof -
  let ?st = "\<lparr>kv = [''multi1'' \<mapsto> \<lparr>payload = Doc (NewCacheItem ''multi1'' (JString ''value1'') Hour 0),
                                      deadline = Some Hour\<rparr>,
                     ''stale'' \<mapsto> \<lparr>payload = Doc (NewCacheItem ''stale'' (JString ''value2'') 100 0),
                                     deadline = None\<rparr>,
                     ''broken'' \<mapsto> \<lparr>payload = Junk ''{'', deadline = None\<rparr>],
              log = [], tasks = []\<rparr>"
  let ?keys = "[''multi1'', ''stale'', ''broken'', ''non_existent'']"
  from get_multiple_excludes_silently [of Up 150 ?st ?keys]
  obtain m where m: "fst (RedisCache_GetMultiple Up 150 ?keys ?st) = Inr m"
    and mk: "\<And>k. m k = (if k \<in> set ?keys
                     then (case lookup 150 ?st k of
                             None \<Rightarrow> None
                           | Some (Doc item) \<Rightarrow> if IsExpired item 150 then None else Some item
                           | Some (Junk s) \<Rightarrow> None)
                     else None)"
    by blast
  have "m ''multi1'' = Some (NewCacheItem ''multi1'' (JString ''value1'') Hour 0)"
    "m ''stale'' = None" "m ''broken'' = None" "m ''non_existent'' = None"
    by (simp_all add: mk lookup_def live_def IsExpired_def time_After_def NewCacheItem_fields
        Hour_def)
  with m show ?thesis by blast
qed

text \<open>
  C6. For every key the backing store does not hold (never written, deleted, or past
  its deadline), \<open>Get\<close> returns no item and no error, and so it does for a key whose
  stored item is expired: the result of a miss is \<open>Inr None\<close>, which is no error
  value.
\<close>

theorem get_miss_is_not_an_error:
  assumes "lookup now st key = None \<or>
           (\<exists>item. lookup now st key = Some (Doc item) \<and> IsExpired item now)"
  shows "fst (RedisCache_Get Up l_del now key st) = Inr None \<and>
         (\<forall>err. fst (RedisCache_Get Up l_del now key st) \<noteq> Inl err)"
proof -
  have "fst (RedisCache_Get Up l_del now key st) = Inr None"
    using assms
  proof
    assume "lookup now st key = None"
    from Get_miss [OF this] show ?thesis by simp
  next
    assume "\<exists>item. lookup now st key = Some (Doc item) \<and> IsExpired item now"
    then obtain item where look: "lookup now st key = Some (Doc item)"
      and expired: "IsExpired item now"
      by blast
    from Get_hit [OF look] expired show ?thesis by simp
  qed
  then show ?thesis by simp
qed

theorem get_miss_is_not_an_error_witness:
  "(lookup 0 empty_world ''non_existent_key'' = None \<or>
    (\<exists>item. lookup 0 empty_world ''non_existent_key'' = Some (Doc item) \<and> IsExpired item 0)) \<and>
   lookup 0 empty_world ''non_existent_key'' = None \<and>
   fst (RedisCache_Get Up Up 0 ''non_existent_key'' empty_world) = Inr None"
proof -
  have none: "lookup 0 empty_world ''non_existent_key'' = None"
    by (simp add: lookup_def empty_world_def)
  then have h: "lookup 0 empty_world ''non_existent_key'' = None \<or>
      (\<exists>item. lookup 0 empty_world ''non_existent_key'' = Some (Doc item) \<and> IsExpired item 0)"
    by simp
  show ?thesis using none get_miss_is_not_an_error [OF h, of Up] by simp
qed

text \<open>
  C7. For every key the backing store does not hold, \<open>Expire\<close> fails with the error
  "key does not exist: <key>", which wraps no other error; a transport failure gives
  "failed to set expiration" wrapping the client's error, so the two are different
  values. For every key the store holds, \<open>Expire\<close> succeeds.
\<close>

theorem expire_not_found_is_distinct:
  "(lookup now st key = None \<longrightarrow>
      fst (RedisCache_Expire Up now key ttl st) = Inl (Errorf (''key does not exist: '' @ key)) \<and>
      fst (RedisCache_Expire Up now key ttl st) \<noteq> fst (RedisCache_Expire (Down m) now key ttl st)) \<and>
   fst (RedisCache_Expire (Down m) now key ttl st)
     = Inl (Errorf_w ''failed to set expiration'' (ClientErr m)) \<and>
   (lookup now st key \<noteq> None \<longrightarrow> fst (RedisCache_Expire Up now key ttl st) = Inr ())"
  by (auto simp: Expire_miss Expire_down RedisCache_Expire_def client_Expire_def)

theorem expire_not_found_is_distinct_witness:
  "lookup 0 empty_world ''missing'' = None \<and>
   fst (RedisCache_Expire Up 0 ''missing'' 100 empty_world)
     = Inl (Errorf ''key does not exist: missing'') \<and>
   lookup 5 \<lparr>kv = [''expire_key'' \<mapsto> \<lparr>payload = Junk ''x'', deadline = None\<rparr>], log = [], tasks = []\<rparr>
     ''expire_key'' \<noteq> None \<and>
   fst (RedisCache_Expire Up 5 ''expire_key'' 100
         \<lparr>kv = [''expire_key'' \<mapsto> \<lparr>payload = Junk ''x'', deadline = None\<rparr>], log = [], tasks = []\<rparr>)
     = Inr ()"
proof -
  let ?st = "\<lparr>kv = [''expire_key'' \<mapsto> \<lparr>payload = Junk ''x'', deadline = None\<rparr>], log = [], tasks = []\<rparr>"
  have h1: "lookup 0 empty_world ''missing'' = None"
    by (simp add: lookup_def empty_world_def)
  have h2: "lookup 5 ?st ''expire_key'' \<noteq> None"
    by (simp add: lookup_def live_def)
  show ?thesis
    using h1 h2
      expire_not_found_is_distinct [of 0 empty_world "''missing''" 100 "''m''"]
      expire_not_found_is_distinct [of 5 ?st "''expire_key''" 100 "''m''"]
    by simp
qed

text \<open>
  C4. In \<open>SetMultiple\<close>, for every batch of items (one per key): when the round trip
  goes through, the call succeeds, every item that marshals is written under its key
  (as the item its JSON decodes to) with its own TTL, and an item that does not
  marshal is passed over, its key left as it was. When the round trip of the batched write fails in the transport, the
  whole call fails with "failed to set multiple cache items" wrapping the client's
  error.
\<close>

theorem set_multiple_skips_and_fails_whole:
  assumes "distinct (map fst items)"
  shows "fst (RedisCache_SetMultiple Up now items st) = Inr () \<and>
         (\<forall>k. kv (snd (RedisCache_SetMultiple Up now items st)) k =
            (case map_of items k of
               None \<Rightarrow> kv st k
             | Some item \<Rightarrow>
                 if marshals item
                 then Some \<lparr>payload = Doc (as_decoded item),
                            deadline = write_deadline now (TTL item) st k\<rparr>
                 else kv st k)) \<and>
         ((\<exists>p \<in> set items. marshals (snd p)) \<longrightarrow>
            fst (RedisCache_SetMultiple (Down m) now items st)
              = Inl (Errorf_w ''failed to set multiple cache items'' (ClientErr m)))"
proof -
  have a: "fst (RedisCache_SetMultiple Up now items st) = Inr ()"
    by (simp add: SetMultiple_up)
  have c: "fst (RedisCache_SetMultiple (Down m) now items st)
             = Inl (Errorf_w ''failed to set multiple cache items'' (ClientErr m))"
    if "\<exists>p \<in> set items. marshals (snd p)"
  proof -
    from that have "queue_items items \<noteq> []" by (simp add: queue_items_empty)
    then show ?thesis by (simp add: RedisCache_SetMultiple_def pipe_Exec_def)
  qed
  show ?thesis
  proof (intro conjI allI impI)
    show "fst (RedisCache_SetMultiple Up now items st) = Inr ()" by (rule a)
  next
    fix k
    show "kv (snd (RedisCache_SetMultiple Up now items st)) k =
            (case map_of items k of
               None \<Rightarrow> kv st k
             | Some item \<Rightarrow>
                 if marshals item
                 then Some \<lparr>payload = Doc (as_decoded item),
                            deadline = write_deadline now (TTL item) st k\<rparr>
                 else kv st k)"
      by (rule kv_SetMultiple_up [OF assms])
  next
    assume "\<exists>p \<in> set items. marshals (snd p)"
    then show "fst (RedisCache_SetMultiple (Down m) now items st)
                 = Inl (Errorf_w ''failed to set multiple cache items'' (ClientErr m))"
      by (rule c)
  qed
qed

theorem set_multiple_skips_and_fails_whole_witness:
  "distinct (map fst [(''key1'', NewCacheItem ''key1'' (JString ''value1'') Hour 0),
                      (''key2'', NewCacheItem ''key2'' GoChan Hour 0),
                      (''key3'', NewCacheItem ''key3'' (JString ''value3'') Hour 0)]) \<and>
   fst (RedisCache_SetMultiple Up 0
         [(''key1'', NewCacheItem ''key1'' (JString ''value1'') Hour 0),
          (''key2'', NewCacheItem ''key2'' GoChan Hour 0),
          (''key3'', NewCacheItem ''key3'' (JString ''value3'') Hour 0)] empty_world) = Inr () \<and>
   kv (snd (RedisCache_SetMultiple Up 0
         [(''key1'', NewCacheItem ''key1'' (JString ''value1'') Hour 0),
          (''key2'', NewCacheItem ''key2'' GoChan Hour 0),
          (''key3'', NewCacheItem ''key3'' (JString ''value3'') Hour 0)] empty_world)) ''key3''
     = Some \<lparr>payload = Doc (NewCacheItem ''key3'' (JString ''value3'') Hour 0), deadline = Some Hour\<rparr> \<and>
   kv (snd (RedisCache_SetMultiple Up 0
         [(''key1'', NewCacheItem ''key1'' (JString ''value1'') Hour 0),
          (''key2'', NewCacheItem ''key2'' GoChan Hour 0),
          (''key3'', NewCacheItem ''key3'' (JString ''value3'') Hour 0)] empty_world)) ''key2''
     = None \<and>
   fst (RedisCache_SetMultiple (Down ''i/o timeout'') 0
         [(''key1'', NewCacheItem ''key1'' (JString ''value1'') Hour 0),
          (''key2'', NewCacheItem ''key2'' GoChan Hour 0),
          (''key3'', NewCacheItem ''key3'' (JString ''value3'') Hour 0)] empty_world)
     = Inl (Errorf_w ''failed to set multiple cache items'' (ClientErr ''i/o timeout''))"
proof -
  let ?items = "[(''key1'', NewCacheItem ''key1'' (JString ''value1'') Hour 0),
                 (''key2'', NewCacheItem ''key2'' GoChan Hour 0),
                 (''key3'', NewCacheItem ''key3'' (JString ''value3'') Hour 0)]"
  have h: "distinct (map fst ?items)" by simp
  have m: "marshals (NewCacheItem k v Hour 0) = encodable v" for k v
    by (simp add: marshals_def NewCacheItem_fields json_year_ok_def Second_def Hour_def)
  have same: "as_decoded (NewCacheItem ''key3'' (JString ''value3'') Hour 0)
                = NewCacheItem ''key3'' (JString ''value3'') Hour 0"
    by (rule as_decoded_id) (simp_all add: NewCacheItem_fields utf8_valid_def rune_len_def)
  have wd: "write_deadline 0 Hour st k = Some Hour" for st k
    by (simp add: write_deadline_def set_lifetime_Hour) (simp add: Hour_def)
  show ?thesis
    using h set_multiple_skips_and_fails_whole [OF h, of 0 empty_world "''i/o timeout''"]
    by (simp add: m same wd NewCacheItem_fields empty_world_def)
qed

text \<open>
  C8, as stated: an item built with ttl \<le> 0 is expired at every time at or after its
  creation and no read returns it. With ttl = 0 it is not expired at the instant of
  its creation: written at instant 1000, it is returned by a \<open>Get\<close> at instant 1000.
\<close>

theorem zero_ttl_not_expired_at_creation_counterexample:
  "IsExpired (NewCacheItem ''k'' (JString ''v'') 0 1000) 1000 = False \<and>
   fst (RedisCache_Get Up Up 1000 ''k'' (snd (RedisCache_Set Up 1000 ''k'' (JString ''v'') 0 empty_world)))
     = Inr (Some (NewCacheItem ''k'' (JString ''v'') 0 1000))"
proof -
  let ?item = "NewCacheItem ''k'' (JString ''v'') 0 1000"
  have fresh: "\<not> IsExpired ?item 1000"
    by (simp add: IsExpired_def time_After_def NewCacheItem_fields)
  have m: "marshals ?item"
    by (simp add: marshals_def NewCacheItem_fields json_year_ok_def Second_def)
  have same: "as_decoded ?item = ?item"
    by (rule as_decoded_id) (simp_all add: NewCacheItem_fields utf8_valid_def rune_len_def)
  have "lookup 1000 (snd (RedisCache_Set Up 1000 ''k'' (JString ''v'') 0 empty_world)) ''k''
          = Some (Doc ?item)"
    by (simp add: Set_ok [OF m] same lookup_store_same live_def write_deadline_def KeepTTL_def)
  from Get_hit [OF this, of Up] fresh show ?thesis by simp
qed

text \<open>
  C8, amended. For every key and value, an item built with ttl \<le> 0 has
  expiresAt \<le> createdAt. It is expired at every instant strictly after its creation
  and, when ttl < 0, at the instant of its creation too; at every such instant \<open>Get\<close>
  returns no item for the key that holds it and the map \<open>GetMultiple\<close> returns has no
  entry for it.
\<close>

theorem nonpositive_ttl_reads_as_expired:
  assumes "ttl \<le> 0" and "t0 < now \<or> (ttl < 0 \<and> t0 \<le> now)"
    and "kv st key = Some \<lparr>payload = Doc (NewCacheItem key val ttl t0), deadline = d\<rparr>"
  shows "ExpiresAt (NewCacheItem key val ttl t0) \<le> CreatedAt (NewCacheItem key val ttl t0) \<and>
         IsExpired (NewCacheItem key val ttl t0) now \<and>
         fst (RedisCache_Get Up l_del now key st) = Inr None \<and>
         (\<exists>m. fst (RedisCache_GetMultiple Up now keys st) = Inr m \<and> m key = None)"
proof -
  let ?item = "NewCacheItem key val ttl t0"
  have a: "ExpiresAt ?item \<le> CreatedAt ?item"
    using assms(1) by (simp add: NewCacheItem_fields)
  have b: "IsExpired ?item now"
    using assms(1,2) by (auto simp: IsExpired_def time_After_def NewCacheItem_fields)
  have look: "lookup now st key = None \<or> lookup now st key = Some (Doc ?item)"
    using assms(3) by (simp add: lookup_def)
  have c: "fst (RedisCache_Get Up l_del now key st) = Inr None"
    using look
  proof
    assume "lookup now st key = None"
    from Get_miss [OF this] show ?thesis by simp
  next
    assume "lookup now st key = Some (Doc ?item)"
    from Get_hit [OF this] b show ?thesis by simp
  qed
  obtain m where m: "fst (RedisCache_GetMultiple Up now keys st) = Inr m"
    and mk: "\<And>k. m k = (if k \<in> set keys
                    then (case lookup now st k of
                            None \<Rightarrow> None
                          | Some (Doc item) \<Rightarrow> if IsExpired item now then None else Some item
                          | Some (Junk s) \<Rightarrow> None)
                    else None)"
    using GetMultiple_result [of now keys st] by blast
  have "m key = None"
    using look b by (auto simp: mk)
  with a b c m show ?thesis by blast
qed

theorem nonpositive_ttl_reads_as_expired_witness:
  "(0::int) \<le> 0 \<and> ((1000::int) < 1001 \<or> ((0::int) < 0 \<and> (1000::int) \<le> 1001)) \<and>
   kv \<lparr>kv = [''k'' \<mapsto> \<lparr>payload = Doc (NewCacheItem ''k'' (JString ''v'') 0 1000), deadline = None\<rparr>],
       log = [], tasks = []\<rparr> ''k''
     = Some \<lparr>payload = Doc (NewCacheItem ''k'' (JString ''v'') 0 1000), deadline = None\<rparr> \<and>
   IsExpired (NewCacheItem ''k'' (JString ''v'') 0 1000) 1001 \<and>
   fst (RedisCache_Get Up Up 1001 ''k''
         \<lparr>kv = [''k'' \<mapsto> \<lparr>payload = Doc (NewCacheItem ''k'' (JString ''v'') 0 1000), deadline = None\<rparr>],
          log = [], tasks = []\<rparr>) = Inr None \<and>
   (\<exists>m. fst (RedisCache_GetMultiple Up 1001 [''k'']
               \<lparr>kv = [''k'' \<mapsto> \<lparr>payload = Doc (NewCacheItem ''k'' (JString ''v'') 0 1000), deadline = None\<rparr>],
                log = [], tasks = []\<rparr>) = Inr m \<and> m ''k'' = None)"
proof -
  let ?st = "\<lparr>kv = [''k'' \<mapsto> \<lparr>payload = Doc (NewCacheItem ''k'' (JString ''v'') 0 1000), deadline = None\<rparr>],
              log = [], tasks = []\<rparr>"
  have h1: "(0::int) \<le> 0" by simp
  have h2: "(1000::int) < 1001 \<or> ((0::int) < 0 \<and> (1000::int) \<le> 1001)" by simp
  have h3: "kv ?st ''k''
      = Some \<lparr>payload = Doc (NewCacheItem ''k'' (JString ''v'') 0 1000), deadline = None\<rparr>"
    by simp
  show ?thesis
    using h3 nonpositive_ttl_reads_as_expired [OF h1 h2 h3, of Up "[''k'']"] by simp
qed

text \<open>
  C10. For every single-item store request with a key whose \<^verbatim>\<open>ttl\<close> field is omitted
  or empty, \<open>SetItem\<close> calls the facade's \<open>Set\<close> with a TTL of one hour, and for every
  batch request (one entry per key, every \<^verbatim>\<open>ttl\<close> string that is given parsing) an entry
  whose \<^verbatim>\<open>ttl\<close> field is omitted or empty is built with a TTL of one hour. When the
  item marshals and the round trip goes through, the item stored has TTL one hour,
  so its expiresAt is its createdAt plus one hour (3600 * 10^9 nanoseconds).
\<close>

theorem handlers_default_ttl_one_hour:
  assumes "req_TTL request = []" and "key \<noteq> []"
    and "marshals (NewCacheItem key (req_Value request) Hour now)"
    and "distinct (map fst request_items)"
    and "\<forall>p \<in> set request_items. request_ttl parse (req_TTL (snd p)) \<noteq> None"
    and "(bkey, r) \<in> set request_items" and "req_TTL r = []"
    and "marshals (NewCacheItem bkey (req_Value r) Hour now)"
  shows "CacheHandler_SetItem parse l now key (Some request) st =
           (case RedisCache_Set l now key (req_Value request) Hour st of
              (Inl err, st') \<Rightarrow> (Response 500 ''failed to set cache item'', st')
            | (Inr u, st') \<Rightarrow> (Response 200 ''item stored successfully'', st')) \<and>
         fst (CacheHandler_SetItem parse Up now key (Some request) st)
           = Response 200 ''item stored successfully'' \<and>
         kv (snd (CacheHandler_SetItem parse Up now key (Some request) st)) key
           = Some \<lparr>payload = Doc (as_decoded (NewCacheItem key (req_Value request) Hour now)),
                   deadline = Some (now + Hour)\<rparr> \<and>
         fst (CacheHandler_SetMultiple parse Up now (Some request_items) st)
           = Response 200 ''items stored successfully'' \<and>
         kv (snd (CacheHandler_SetMultiple parse Up now (Some request_items) st)) bkey
           = Some \<lparr>payload = Doc (as_decoded (NewCacheItem bkey (req_Value r) Hour now)),
                   deadline = Some (now + Hour)\<rparr> \<and>
         ExpiresAt (NewCacheItem k v Hour now) = CreatedAt (NewCacheItem k v Hour now) + Hour \<and>
         ExpiresAt (as_decoded (NewCacheItem k v Hour now))
           = CreatedAt (as_decoded (NewCacheItem k v Hour now)) + Hour \<and>
         TTL (as_decoded (NewCacheItem k v Hour now)) = Hour \<and>
         Hour = 60 * 60 * 1000000000"
proof -
  have wd: "write_deadline now Hour st' k' = Some (now + Hour)" for st' k'
    by (simp add: write_deadline_def set_lifetime_Hour) (simp add: Hour_def)
  have pos: "0 < Hour" by (simp add: Hour_def)
  have a: "CacheHandler_SetItem parse l now key (Some request) st =
           (case RedisCache_Set l now key (req_Value request) Hour st of
              (Inl err, st') \<Rightarrow> (Response 500 ''failed to set cache item'', st')
            | (Inr u, st') \<Rightarrow> (Response 200 ''item stored successfully'', st'))" for l
    using assms(1,2) by (rule SetItem_default)
  have b: "fst (CacheHandler_SetItem parse Up now key (Some request) st)
             = Response 200 ''item stored successfully''"
    using assms(3) by (simp add: a Set_ok)
  have c: "kv (snd (CacheHandler_SetItem parse Up now key (Some request) st)) key
             = Some \<lparr>payload = Doc (as_decoded (NewCacheItem key (req_Value request) Hour now)),
                     deadline = Some (now + Hour)\<rparr>"
    using assms(3) by (simp add: a Set_ok store_def wd)
  let ?items = "map (\<lambda>p. (fst p, NewCacheItem (fst p) (req_Value (snd p))
                              (the (request_ttl parse (req_TTL (snd p)))) now)) request_items"
  have built: "build_items parse now request_items = Inr ?items"
    using assms(5) by (rule build_items_ok)
  have dist: "distinct (map fst ?items)"
    using assms(4) by (simp add: comp_def)
  have "(bkey, NewCacheItem bkey (req_Value r) Hour now) \<in> set ?items"
    using assms(6,7) by (force simp: request_ttl_default)
  with dist have mo: "map_of ?items bkey = Some (NewCacheItem bkey (req_Value r) Hour now)"
    by (rule map_of_is_SomeI)
  have handler: "CacheHandler_SetMultiple parse Up now (Some request_items) st
                   = (Response 200 ''items stored successfully'',
                      snd (RedisCache_SetMultiple Up now ?items st))"
    by (simp add: CacheHandler_SetMultiple_def built SetMultiple_up)
  have d: "fst (CacheHandler_SetMultiple parse Up now (Some request_items) st)
             = Response 200 ''items stored successfully''"
    by (simp add: handler)
  have e: "kv (snd (CacheHandler_SetMultiple parse Up now (Some request_items) st)) bkey
             = Some \<lparr>payload = Doc (as_decoded (NewCacheItem bkey (req_Value r) Hour now)),
                     deadline = Some (now + Hour)\<rparr>"
    using assms(8)
    by (simp add: handler kv_SetMultiple_up [OF dist] mo NewCacheItem_fields wd)
  have f: "ExpiresAt (NewCacheItem k v Hour now) = CreatedAt (NewCacheItem k v Hour now) + Hour"
    "ExpiresAt (as_decoded (NewCacheItem k v Hour now))
       = CreatedAt (as_decoded (NewCacheItem k v Hour now)) + Hour"
    "TTL (as_decoded (NewCacheItem k v Hour now)) = Hour"
    by (simp_all add: NewCacheItem_fields as_decoded_fields)
  have g: "Hour = 60 * 60 * 1000000000" by (simp add: Hour_def)
  from a b c d e f g show ?thesis by blast
qed

theorem handlers_default_ttl_one_hour_witness:
  "req_TTL \<lparr>req_Value = JString ''mi_valor'', req_TTL = []\<rparr> = [] \<and> ''mi_clave'' \<noteq> [] \<and>
   marshals (NewCacheItem ''mi_clave''
     (req_Value \<lparr>req_Value = JString ''mi_valor'', req_TTL = []\<rparr>) Hour 7) \<and>
   distinct (map fst [(''clave1'', \<lparr>req_Value = JString ''valor1'', req_TTL = ''30m''\<rparr>),
                      (''clave2'', \<lparr>req_Value = JString ''valor2'', req_TTL = []\<rparr>)]) \<and>
   kv (snd (CacheHandler_SetItem (\<lambda>s. if s = ''30m'' then Some 1800000000000 else None) Up 7
             ''mi_clave'' (Some \<lparr>req_Value = JString ''mi_valor'', req_TTL = []\<rparr>) empty_world))
      ''mi_clave''
     = Some \<lparr>payload = Doc \<lparr>Key = ''mi_clave'', Value = JString ''mi_valor'', TTL = 3600000000000,
                             CreatedAt = 7, ExpiresAt = 3600000000007\<rparr>,
             deadline = Some 3600000000007\<rparr> \<and>
   kv (snd (CacheHandler_SetMultiple (\<lambda>s. if s = ''30m'' then Some 1800000000000 else None) Up 7
             (Some [(''clave1'', \<lparr>req_Value = JString ''valor1'', req_TTL = ''30m''\<rparr>),
                    (''clave2'', \<lparr>req_Value = JString ''valor2'', req_TTL = []\<rparr>)]) empty_world))
      ''clave2''
     = Some \<lparr>payload = Doc \<lparr>Key = ''clave2'', Value = JString ''valor2'', TTL = 3600000000000,
                             CreatedAt = 7, ExpiresAt = 3600000000007\<rparr>,
             deadline = Some 3600000000007\<rparr>"
proof -
  let ?parse = "\<lambda>s. if s = ''30m'' then Some (1800000000000 :: int) else None"
  let ?request = "\<lparr>req_Value = JString ''mi_valor'', req_TTL = []\<rparr>"
  let ?r1 = "\<lparr>req_Value = JString ''valor1'', req_TTL = ''30m''\<rparr>"
  let ?r2 = "\<lparr>req_Value = JString ''valor2'', req_TTL = []\<rparr>"
  let ?items = "[(''clave1'', ?r1), (''clave2'', ?r2)]"
  have h1: "req_TTL ?request = []" by simp
  have h2: "''mi_clave'' \<noteq> []" by simp
  have m: "marshals (NewCacheItem k (JString s) Hour 7)" for k s
    by (simp add: marshals_def NewCacheItem_fields json_year_ok_def Second_def Hour_def)
  have h3: "marshals (NewCacheItem ''mi_clave'' (req_Value ?request) Hour 7)" by (simp add: m)
  have same: "as_decoded (NewCacheItem ''mi_clave'' (JString ''mi_valor'') Hour 7)
                = NewCacheItem ''mi_clave'' (JString ''mi_valor'') Hour 7"
    "as_decoded (NewCacheItem ''clave2'' (JString ''valor2'') Hour 7)
                = NewCacheItem ''clave2'' (JString ''valor2'') Hour 7"
    by (rule as_decoded_id, simp_all add: NewCacheItem_fields utf8_valid_def rune_len_def)+
  have h4: "distinct (map fst ?items)" by simp
  have h5: "\<forall>p \<in> set ?items. request_ttl ?parse (req_TTL (snd p)) \<noteq> None"
    by (simp add: request_ttl_def)
  have h6: "(''clave2'', ?r2) \<in> set ?items" by simp
  have h7: "req_TTL ?r2 = []" by simp
  have h8: "marshals (NewCacheItem ''clave2'' (req_Value ?r2) Hour 7)" by (simp add: m)
  note t = handlers_default_ttl_one_hour [OF h1 h2 h3 h4 h5 h6 h7 h8,
      where l = Up and st = empty_world and k = "''x''" and v = JNull]
  have item: "NewCacheItem k (JString s) Hour 7
      = \<lparr>Key = k, Value = JString s, TTL = 3600000000000, CreatedAt = 7,
         ExpiresAt = 3600000000007\<rparr>" for k s
    by (simp add: NewCacheItem_def time_Add_def Hour_def)
  have at: "(7::int) + Hour = 3600000000007" by (simp add: Hour_def)
  have k1: "kv (snd (CacheHandler_SetItem ?parse Up 7 ''mi_clave'' (Some ?request) empty_world))
              ''mi_clave''
      = Some \<lparr>payload = Doc \<lparr>Key = ''mi_clave'', Value = JString ''mi_valor'',
                              TTL = 3600000000000, CreatedAt = 7, ExpiresAt = 3600000000007\<rparr>,
              deadline = Some 3600000000007\<rparr>"
    using t [THEN conjunct2, THEN conjunct2, THEN conjunct1]
    by (simp only: store_request.simps same) (simp only: at item)
  have k2: "kv (snd (CacheHandler_SetMultiple ?parse Up 7 (Some ?items) empty_world)) ''clave2''
      = Some \<lparr>payload = Doc \<lparr>Key = ''clave2'', Value = JString ''valor2'',
                              TTL = 3600000000000, CreatedAt = 7, ExpiresAt = 3600000000007\<rparr>,
              deadline = Some 3600000000007\<rparr>"
    using t [THEN conjunct2, THEN conjunct2, THEN conjunct2, THEN conjunct2, THEN conjunct1]
    by (simp only: store_request.simps same) (simp only: at item)
  show ?thesis
    by (intro conjI) (rule h1, rule h2, rule h3, rule h4, rule k1, rule k2)
qed

end
